theory Spec2Isabelle
  imports Main "HOL-Library.Word"
begin

section \<open>The P2P challenge trade panel (src/unnamed/part_000)\<close>

text \<open>
  The source is a React component, \<open>P2PChallengeTradePanel\<close>. Its state is nine
  \<open>useState\<close> cells; its behaviour is a handful of handlers that read the cells, talk
  to the server and write the cells back. The embedding is a record for the cells and
  one function per handler. Whatever a handler receives from outside the file (the
  response of \<open>fetch\<close>, the result of \<open>apiRequest\<close>, the SHA-256 digest, the clock) is a
  parameter of that function, so every theorem holds for every server.
\<close>

subsection \<open>Data\<close>

datatype Choice = Challenger | Challenged

record Proof =
  proof_id :: int
  proof_uri :: string
  proof_hash :: string
  participant_id :: "string option"
  uploaded_at :: "string option"

record Vote =
  userId :: string
  choice :: Choice
  timestamp :: string

text \<open>The values of the \<open>status\<close> cell; \<open>null\<close> is \<open>None\<close>.\<close>

datatype Status = Uploading | Voting | Released | Disputed | AutoReleased

text \<open>
  \<open>votes\<close> is a JavaScript object used as a dictionary from user id to vote. It is
  kept as the list of its entries in enumeration order, so that \<open>Object.keys\<close> and
  \<open>Object.values\<close> are the two projections. (JavaScript enumerates integer-like keys
  first; the theorems below hold for every list of entries, hence for every order.)
\<close>

type_synonym VoteMap = "(string \<times> Vote) list"

definition objectKeys :: "VoteMap \<Rightarrow> string list" where
  "objectKeys m = map fst m"

definition objectValues :: "VoteMap \<Rightarrow> Vote list" where
  "objectValues m = map snd m"

text \<open>
  \<open>voteMap[k] = v\<close>: overwrite the entry of \<open>k\<close> in place, or add it last. User ids
  are taken to be ordinary property names (an assignment to \<open>__proto__\<close> would add no
  entry).
\<close>

fun assign :: "string \<Rightarrow> Vote \<Rightarrow> VoteMap \<Rightarrow> VoteMap" where
  "assign k v [] = [(k, v)]"
| "assign k v ((k', v') # m) =
     (if k' = k then (k, v) # m else (k', v') # assign k v m)"

record PanelState =
  proofs :: "Proof list"
  votes :: VoteMap
  uploading :: bool
  progress :: nat
  selectedProof :: "Proof option"
  myVote :: "Choice option"
  countdownTime :: "int option"
  showDisputeMenu :: bool
  status :: "Status option"

text \<open>The initial values of the \<open>useState\<close> cells (lines 35 to 43).\<close>

definition initialState :: PanelState where
  "initialState =
     \<lparr>proofs = [], votes = [], uploading = False, progress = 0, selectedProof = None,
      myVote = None, countdownTime = None, showDisputeMenu = False, status = None\<rparr>"

text \<open>
  The result of \<open>fetch\<close> followed by \<open>res.json()\<close>: the call throws, the response is
  not \<open>ok\<close>, or it carries data.
\<close>

datatype 'a response = Threw | NotOk | Ok 'a

subsection \<open>Vote agreement\<close>

text \<open>The loop of lines 84 to 91.\<close>

definition voteMap_of :: "Vote list \<Rightarrow> VoteMap" where
  "voteMap_of data =
     foldl (\<lambda>m v. assign (userId v)
              \<lparr>userId = userId v, choice = choice v, timestamp = timestamp v\<rparr> m) [] data"

text \<open>The test of lines 95 to 97, on the map just built.\<close>

definition autoReleaseCheck :: "VoteMap \<Rightarrow> bool" where
  "autoReleaseCheck voteMap =
     (if length (objectKeys voteMap) = 2
      then (let voteChoices = map choice (objectValues voteMap)
            in voteChoices ! 0 = voteChoices ! 1)
      else False)"

definition fetchVotes :: "Vote list response \<Rightarrow> PanelState \<Rightarrow> PanelState" where
  "fetchVotes res st =
     (case res of
        Threw \<Rightarrow> st
      | NotOk \<Rightarrow> st
      | Ok data \<Rightarrow>
          (let voteMap = voteMap_of data;
               st1 = st\<lparr>votes := voteMap\<rparr>
           in if autoReleaseCheck voteMap then st1\<lparr>status := Some AutoReleased\<rparr> else st1))"

text \<open>The derived flags of lines 196 and 197.\<close>

definition bothVoted :: "VoteMap \<Rightarrow> bool" where
  "bothVoted vs = (length (objectKeys vs) = 2)"

definition votesMatch :: "VoteMap \<Rightarrow> bool" where
  "votesMatch vs =
     (bothVoted vs \<and>
      list_all (\<lambda>v. choice v = choice (objectValues vs ! 0)) (objectValues vs))"

subsection \<open>The other handlers\<close>

definition fetchProofs :: "Proof list option response \<Rightarrow> PanelState \<Rightarrow> PanelState" where
  "fetchProofs res st =
     (case res of
        Threw \<Rightarrow> st
      | NotOk \<Rightarrow> st
      | Ok data \<Rightarrow> st\<lparr>proofs := (case data of None \<Rightarrow> [] | Some ps \<Rightarrow> ps)\<rparr>)"

text \<open>
  Lines 125 to 129: the digest bytes, each written in base 16 (\<open>b.toString(16)\<close>),
  padded on the left to two characters with \<open>0\<close>, and joined. The digest itself
  (\<open>crypto.subtle.digest\<close>) belongs to the platform and is a parameter.
\<close>

definition hexChars :: string where
  "hexChars = ''0123456789abcdef''"

definition hexDigit :: "nat \<Rightarrow> char" where
  "hexDigit d = hexChars ! d"

function toString16 :: "nat \<Rightarrow> string" where
  "toString16 n =
     (if n < 16 then [hexDigit n] else toString16 (n div 16) @ [hexDigit (n mod 16)])"
  by pat_completeness auto
termination
  by (relation "measure (\<lambda>n. n)") auto

definition padStart :: "nat \<Rightarrow> char \<Rightarrow> string \<Rightarrow> string" where
  "padStart targetLength c s = replicate (targetLength - length s) c @ s"

definition hashHex :: "8 word list \<Rightarrow> string" where
  "hashHex hashArray =
     concat (map (\<lambda>b. padStart 2 (CHR ''0'') (toString16 (unat b))) hashArray)"

text \<open>The body of the registration request (lines 133 to 136).\<close>

record ProofRegistration =
  proofUri :: string
  proofHash :: string

definition registration :: "string \<Rightarrow> 8 word list \<Rightarrow> ProofRegistration" where
  "registration imageUrl hashArray =
     \<lparr>proofUri = imageUrl, proofHash = hashHex hashArray\<rparr>"

text \<open>
  \<open>handleFile\<close>, run from its first line to its last. \<open>uploadRes\<close> is the answer to
  the image upload (with the \<open>imageUrl\<close> of its JSON), \<open>digest\<close> the SHA-256 digest of
  the file (\<open>None\<close> when reading or hashing the file throws), \<open>apiRegister\<close> the
  server's answer to the registration (\<open>None\<close> when \<open>apiRequest\<close> throws) and
  \<open>proofsRes\<close> the answer to the \<open>fetchProofs\<close> that follows. Every exception ends in
  the \<open>catch\<close> of line 144.
\<close>

definition handleFile ::
  "string response \<Rightarrow> 8 word list option \<Rightarrow> (ProofRegistration \<Rightarrow> Proof option) \<Rightarrow>
   Proof list option response \<Rightarrow> PanelState \<Rightarrow> PanelState" where
  "handleFile uploadRes digest apiRegister proofsRes st =
     (let st1 = st\<lparr>uploading := True, progress := 5, status := Some Uploading\<rparr>
      in case uploadRes of
           Threw \<Rightarrow> st1\<lparr>uploading := False, status := None\<rparr>
         | NotOk \<Rightarrow> st1\<lparr>uploading := False, status := None\<rparr>
         | Ok imageUrl \<Rightarrow>
             (let st2 = st1\<lparr>progress := 40\<rparr>
              in case digest of
                   None \<Rightarrow> st2\<lparr>uploading := False, status := None\<rparr>
                 | Some hashArray \<Rightarrow>
                     (let st3 = st2\<lparr>progress := 60\<rparr>
                      in case apiRegister (registration imageUrl hashArray) of
                           None \<Rightarrow> st3\<lparr>uploading := False, status := None\<rparr>
                         | Some proof \<Rightarrow>
                             (let st4 = fetchProofs proofsRes (st3\<lparr>progress := 90\<rparr>)
                              in st4\<lparr>uploading := False, progress := 100,
                                     selectedProof := Some proof, status := Some Voting\<rparr>))))"

text \<open>The timeout of line 141.\<close>

definition resetProgress :: "PanelState \<Rightarrow> PanelState" where
  "resetProgress st = st\<lparr>progress := 0\<rparr>"

text \<open>The body of the vote request (lines 159 to 162).\<close>

record VoteRequest =
  voteChoice :: Choice
  voteProofHash :: string

text \<open>
  \<open>handleVote\<close>: without a selected proof nothing is sent. \<open>apiVote\<close> tells whether
  the server accepted the request (\<open>apiRequest\<close> throws otherwise), \<open>votesRes\<close> is the
  answer to the \<open>fetchVotes\<close> that follows.
\<close>

definition handleVote ::
  "Choice \<Rightarrow> (VoteRequest \<Rightarrow> bool) \<Rightarrow> Vote list response \<Rightarrow> PanelState \<Rightarrow> PanelState" where
  "handleVote c apiVote votesRes st =
     (case selectedProof st of
        None \<Rightarrow> st
      | Some p \<Rightarrow>
          if apiVote \<lparr>voteChoice = c, voteProofHash = proof_hash p\<rparr>
          then fetchVotes votesRes (st\<lparr>myVote := Some c\<rparr>)
          else st)"

text \<open>\<open>handleOpenDispute\<close>: \<open>apiDispute\<close> tells whether the request went through.\<close>

definition handleOpenDispute :: "bool \<Rightarrow> PanelState \<Rightarrow> PanelState" where
  "handleOpenDispute apiDispute st =
     (if apiDispute then st\<lparr>status := Some Disputed, showDisputeMenu := False\<rparr> else st)"

subsection \<open>The countdown\<close>

text \<open>
  One tick of the interval of lines 49 to 58, which runs when the challenge has a due
  date. Times are milliseconds since the epoch, as \<open>getTime\<close> gives them for a valid
  date. The second component tells whether the interval is cleared.
\<close>

definition remaining :: "int \<Rightarrow> int \<Rightarrow> int" where
  "remaining now due = max 0 (due - now)"

definition countdownTick :: "int \<Rightarrow> int \<Rightarrow> PanelState \<Rightarrow> PanelState \<times> bool" where
  "countdownTick now due st =
     (st\<lparr>countdownTime := Some (remaining now due)\<rparr>, remaining now due = 0)"

definition decDigit :: "nat \<Rightarrow> char" where
  "decDigit d = ''0123456789'' ! d"

function toString10 :: "nat \<Rightarrow> string" where
  "toString10 n =
     (if n < 10 then [decDigit n] else toString10 (n div 10) @ [decDigit (n mod 10)])"
  by pat_completeness auto
termination
  by (relation "measure (\<lambda>n. n)") auto

definition formatCountdown :: "int option \<Rightarrow> string" where
  "formatCountdown t =
     (case t of
        None \<Rightarrow> ''Expired''
      | Some ms \<Rightarrow>
          if ms \<le> 0 then ''Expired''
          else (let totalSeconds = ms div 1000;
                    hours = totalSeconds div 3600;
                    minutes = (totalSeconds mod 3600) div 60;
                    seconds = totalSeconds mod 60
                in toString10 (nat hours) @ ''h '' @ toString10 (nat minutes) @ ''m ''
                   @ toString10 (nat seconds) @ ''s''))"

text \<open>What the clock of line 231 shows.\<close>

definition clockText :: "PanelState \<Rightarrow> string" where
  "clockText st = formatCountdown (countdownTime st)"

subsection \<open>What is rendered\<close>

text \<open>The header label of lines 215 to 226.\<close>

definition headerLabel :: "PanelState \<Rightarrow> string option" where
  "headerLabel st =
     (if status st = Some AutoReleased then Some ''Released''
      else if status st = Some Disputed then Some ''Disputed''
      else None)"

text \<open>The \<open>disabled\<close> attributes of lines 261, 289 and 297.\<close>

definition uploadDisabled :: "PanelState \<Rightarrow> bool" where
  "uploadDisabled st =
     (uploading st \<or> status st = Some Released \<or> status st = Some Disputed)"

definition voteDisabled :: "PanelState \<Rightarrow> bool" where
  "voteDisabled st =
     (selectedProof st = None \<or> status st = Some Released \<or> status st = Some Disputed)"

text \<open>The voting section is rendered only with a selected proof (line 273).\<close>

definition votingSectionVisible :: "PanelState \<Rightarrow> bool" where
  "votingSectionVisible st = (selectedProof st \<noteq> None)"

text \<open>
  The vote result of lines 341 to 355 (the check mark that ends the first text is left
  out).
\<close>

definition voteResultText :: "VoteMap \<Rightarrow> string option" where
  "voteResultText vs =
     (if bothVoted vs
      then Some (if votesMatch vs then ''Votes Match - Funds Released''
                 else ''Votes Disagree - Dispute Opened'')
      else None)"

text \<open>The dispute menu of lines 360 to 391, titled \<open>Vote Mismatch\<close>.\<close>

definition disputeMenuVisible :: "VoteMap \<Rightarrow> bool" where
  "disputeMenuVisible vs = (bothVoted vs \<and> \<not> votesMatch vs)"

definition openDisputeButtonVisible :: "PanelState \<Rightarrow> bool" where
  "openDisputeButtonVisible st = (disputeMenuVisible (votes st) \<and> showDisputeMenu st)"

definition openDisputeDisabled :: "PanelState \<Rightarrow> bool" where
  "openDisputeDisabled st = (status st = Some Disputed)"


subsection \<open>The panel as a transition system\<close>

text \<open>
  Everything that can change the state: the two fetches (run by the effect of line 63),
  the three handlers, the click on a proof (line 245), the click that opens the dispute
  menu (line 369), a tick of the countdown and the progress timeout. A handler is one
  step, from its call to its return: two handlers that wait for the server at the same
  time are not interleaved.
\<close>

datatype Event =
    FetchProofs "Proof list option response"
  | FetchVotes "Vote list response"
  | HandleFile "string response" "8 word list option" "ProofRegistration \<Rightarrow> Proof option"
      "Proof list option response"
  | HandleVote Choice "VoteRequest \<Rightarrow> bool" "Vote list response"
  | HandleOpenDispute bool
  | SelectProof Proof
  | ShowDisputeMenu
  | CountdownTick int int
  | ResetProgress

fun step :: "Event \<Rightarrow> PanelState \<Rightarrow> PanelState" where
  "step (FetchProofs res) st = fetchProofs res st"
| "step (FetchVotes res) st = fetchVotes res st"
| "step (HandleFile uploadRes digest apiRegister proofsRes) st =
     handleFile uploadRes digest apiRegister proofsRes st"
| "step (HandleVote c apiVote votesRes) st = handleVote c apiVote votesRes st"
| "step (HandleOpenDispute apiDispute) st = handleOpenDispute apiDispute st"
| "step (SelectProof p) st = st\<lparr>selectedProof := Some p\<rparr>"
| "step ShowDisputeMenu st = st\<lparr>showDisputeMenu := True\<rparr>"
| "step (CountdownTick now due) st = fst (countdownTick now due st)"
| "step ResetProgress st = resetProgress st"

text \<open>
  The events a user can cause in a state, as the rendering allows them: a disabled
  button does not call its handler, and a control that is not rendered cannot be
  clicked. The fetches and the timers are not user actions.
\<close>

fun clickable :: "PanelState \<Rightarrow> Event \<Rightarrow> bool" where
  "clickable st (HandleFile uploadRes digest apiRegister proofsRes) = (\<not> uploadDisabled st)"
| "clickable st (HandleVote c apiVote votesRes) =
     (votingSectionVisible st \<and> \<not> voteDisabled st)"
| "clickable st (HandleOpenDispute apiDispute) =
     (openDisputeButtonVisible st \<and> \<not> openDisputeDisabled st)"
| "clickable st (SelectProof p) = (p \<in> set (proofs st))"
| "clickable st ShowDisputeMenu = (disputeMenuVisible (votes st) \<and> \<not> showDisputeMenu st)"
| "clickable st _ = False"

section \<open>The vote ledger behind the panel\<close>

text \<open>
  The request that \<open>handleVote\<close> sends is answered by the server, whose code is not
  among the source files. What the claims say about that answer is settled on a model
  of the VoteLedger that the specification describes.
\<close>

text \<open>
  Modelled from the spec: the error taxonomy of section 7 (the server's errors are not
  in the source files).
\<close>

datatype Error =
    UnknownChallenge | NotAParticipant | ProofNotFound | InvalidHash | AlreadyVoted
  | ChallengeAlreadySettled | AlreadyDisputed

text \<open>
  Modelled from the spec: the ProofSubmission, Vote and Challenge of section 3 and the
  three stores of section 2 (none of them is in the source files). The proofs and the
  votes of a challenge are kept in the stores, under the challenge's id.
\<close>

record ProofSubmission =
  submissionId :: nat
  submissionChallengeId :: nat
  submitterId :: string
  contentURI :: string
  contentHash :: string
  submittedAt :: int

record LedgerVote =
  voteChallengeId :: nat
  voterId :: string
  ledgerChoice :: Choice
  referencedProofHash :: string
  castAt :: int

record Challenge =
  challenger :: string
  challenged :: string
  stake :: nat
  dueAt :: int

record Core =
  challenges :: "nat \<rightharpoonup> Challenge"
  proofStore :: "nat \<Rightarrow> ProofSubmission list"
  voteLedger :: "nat \<Rightarrow> (string \<rightharpoonup> LedgerVote)"

text \<open>
  Modelled from the spec: the content hashes of the submissions recorded for a
  challenge, which section 4.2 refers to.
\<close>

definition recordedHashes :: "Core \<Rightarrow> nat \<Rightarrow> string set" where
  "recordedHashes core challengeId = set (map contentHash (proofStore core challengeId))"

text \<open>
  Modelled from the spec: \<open>castVote\<close> of section 4.2 (the server's vote endpoint is
  not in the source files). It checks the four preconditions in the order given there,
  each with its own error, and on success records the vote. A rejected call returns
  the state it was given (section 7: atomic reject). Section 4.2 lists no other
  precondition: the refusal of a settled challenge and the re-evaluation after a vote
  belong to the SettlementEngine of section 4.3 and are not part of this function.
\<close>

definition castVote ::
  "Core \<Rightarrow> nat \<Rightarrow> string \<Rightarrow> Choice \<Rightarrow> string \<Rightarrow> int \<Rightarrow> (Error + LedgerVote) \<times> Core" where
  "castVote core challengeId voter c hash now =
     (case challenges core challengeId of
        None \<Rightarrow> (Inl UnknownChallenge, core)
      | Some ch \<Rightarrow>
          if voter \<noteq> challenger ch \<and> voter \<noteq> challenged ch then (Inl NotAParticipant, core)
          else if hash \<notin> recordedHashes core challengeId then (Inl ProofNotFound, core)
          else if voteLedger core challengeId voter \<noteq> None then (Inl AlreadyVoted, core)
          else
            (let v = \<lparr>voteChallengeId = challengeId, voterId = voter, ledgerChoice = c,
                      referencedProofHash = hash, castAt = now\<rparr>
             in (Inr v,
                 core\<lparr>voteLedger :=
                   (voteLedger core)(challengeId := (voteLedger core challengeId)(voter \<mapsto> v))\<rparr>)))"





section \<open>Properties\<close>

declare toString16.simps [simp del]
declare toString10.simps [simp del]

subsection \<open>Vote maps\<close>

lemma length_two_iff: "length xs = 2 \<longleftrightarrow> (\<exists>a b. xs = [a, b])"
  by (auto simp: numeral_2_eq_2 length_Suc_conv)

lemma autoReleaseCheck_pair:
  "autoReleaseCheck vs \<longleftrightarrow> (\<exists>k1 v1 k2 v2. vs = [(k1, v1), (k2, v2)] \<and> choice v1 = choice v2)"
  by (auto simp: autoReleaseCheck_def objectKeys_def objectValues_def length_two_iff)

lemma votesMatch_pair:
  "votesMatch vs \<longleftrightarrow> (\<exists>k1 v1 k2 v2. vs = [(k1, v1), (k2, v2)] \<and> choice v1 = choice v2)"
  by (auto simp: votesMatch_def bothVoted_def objectKeys_def objectValues_def length_two_iff)

lemma disputeMenuVisible_pair:
  "disputeMenuVisible vs \<longleftrightarrow>
     (\<exists>k1 v1 k2 v2. vs = [(k1, v1), (k2, v2)] \<and> choice v1 \<noteq> choice v2)"
  unfolding disputeMenuVisible_def votesMatch_pair
  by (auto simp: bothVoted_def objectKeys_def length_two_iff)

lemma not_bothVoted: "length vs < 2 \<Longrightarrow> \<not> bothVoted vs"
  by (simp add: bothVoted_def objectKeys_def)

lemma keys_assign: "fst ` set (assign k v m) = insert k (fst ` set m)"
  by (induction m) force+

lemma distinct_assign: "distinct (map fst m) \<Longrightarrow> distinct (map fst (assign k v m))"
  by (induction m) (auto simp: keys_assign)

lemma distinct_foldl_assign:
  "distinct (map fst m) \<Longrightarrow> distinct (map fst (foldl (\<lambda>m v. assign (f v) (g v) m) m data))"
  by (induction data arbitrary: m) (auto simp: distinct_assign)

lemma distinct_voteMap_of: "distinct (map fst (voteMap_of data))"
  unfolding voteMap_of_def by (rule distinct_foldl_assign) simp

subsection \<open>What the handlers do to \<open>status\<close> and \<open>votes\<close>\<close>

lemma status_fetchVotes:
  "status (fetchVotes res st) =
     (case res of Ok data \<Rightarrow> if autoReleaseCheck (voteMap_of data) then Some AutoReleased else status st
      | _ \<Rightarrow> status st)"
  by (simp add: fetchVotes_def Let_def split: response.splits)

lemma votes_fetchVotes:
  "votes (fetchVotes res st) = (case res of Ok data \<Rightarrow> voteMap_of data | _ \<Rightarrow> votes st)"
  by (simp add: fetchVotes_def Let_def split: response.splits)

lemma fetchVotes_autoReleased:
  assumes "status (fetchVotes res st) = Some AutoReleased" and "status st \<noteq> Some AutoReleased"
  shows "\<exists>k1 v1 k2 v2. votes (fetchVotes res st) = [(k1, v1), (k2, v2)] \<and> k1 \<noteq> k2 \<and> choice v1 = choice v2"
proof -
  from assms obtain data where res: "res = Ok data" and chk: "autoReleaseCheck (voteMap_of data)"
    by (auto simp: status_fetchVotes split: response.splits if_splits)
  from chk obtain k1 v1 k2 v2 where vm: "voteMap_of data = [(k1, v1), (k2, v2)]" and eq: "choice v1 = choice v2"
    by (auto simp: autoReleaseCheck_pair)
  from distinct_voteMap_of [of data] vm have "k1 \<noteq> k2" by simp
  with res vm eq show ?thesis by (simp add: votes_fetchVotes)
qed

lemma status_fetchProofs: "status (fetchProofs res st) = status st"
  by (simp add: fetchProofs_def split: response.splits)

lemma status_handleFile:
  "status (handleFile u h r p st) = None \<or> status (handleFile u h r p st) = Some Voting"
  by (simp add: handleFile_def Let_def status_fetchProofs split: response.splits option.splits)


text \<open>
  The panel itself never turns a vote down because the user has voted before: the vote
  buttons depend on the selected proof and on \<open>status\<close> only, a click without a
  selected proof sends nothing, and a request the server rejects changes nothing.
\<close>

lemma vote_button_gate:
  "clickable st (HandleVote c apiVote votesRes) =
     (selectedProof st \<noteq> None \<and> status st \<noteq> Some Released \<and> status st \<noteq> Some Disputed)"
  by (auto simp: votingSectionVisible_def voteDisabled_def)

lemma handleVote_without_proof:
  "selectedProof st = None \<Longrightarrow> handleVote c apiVote votesRes st = st"
  by (simp add: handleVote_def)

lemma handleVote_rejected:
  "selectedProof st = Some p \<Longrightarrow> \<not> apiVote \<lparr>voteChoice = c, voteProofHash = proof_hash p\<rparr>
   \<Longrightarrow> handleVote c apiVote votesRes st = st"
  by (simp add: handleVote_def)

subsection \<open>Concrete runs\<close>

lemma fetch_two_equal:
  "fetchVotes (Ok [\<lparr>userId = ''x'', choice = Challenger, timestamp = ''t1''\<rparr>,
                   \<lparr>userId = ''y'', choice = Challenger, timestamp = ''t2''\<rparr>]) initialState
   = initialState\<lparr>votes := [(''x'', \<lparr>userId = ''x'', choice = Challenger, timestamp = ''t1''\<rparr>),
                             (''y'', \<lparr>userId = ''y'', choice = Challenger, timestamp = ''t2''\<rparr>)],
                   status := Some AutoReleased\<rparr>"
  by (simp add: fetchVotes_def voteMap_of_def autoReleaseCheck_def objectKeys_def objectValues_def)

lemma fetch_two_differing:
  "fetchVotes (Ok [\<lparr>userId = ''x'', choice = Challenger, timestamp = ''t1''\<rparr>,
                   \<lparr>userId = ''y'', choice = Challenged, timestamp = ''t2''\<rparr>]) initialState
   = initialState\<lparr>votes := [(''x'', \<lparr>userId = ''x'', choice = Challenger, timestamp = ''t1''\<rparr>),
                             (''y'', \<lparr>userId = ''y'', choice = Challenged, timestamp = ''t2''\<rparr>)]\<rparr>"
  by (simp add: fetchVotes_def voteMap_of_def autoReleaseCheck_def objectKeys_def objectValues_def)


subsection \<open>Unanimity\<close>

text \<open>
  Claim C1. Whatever happens to the panel, \<open>status\<close> becomes \<open>auto-released\<close> only
  in a step after which exactly two votes, of two different users, are recorded and
  both have the same choice. So with fewer than two votes, or with two votes of
  unequal choice, no step produces \<open>auto-released\<close>.
\<close>

theorem autoRelease_needs_two_equal_votes:
  assumes "status (step e st) = Some AutoReleased" and "status st \<noteq> Some AutoReleased"
  shows "\<exists>k1 v1 k2 v2. votes (step e st) = [(k1, v1), (k2, v2)] \<and> k1 \<noteq> k2 \<and> choice v1 = choice v2"
proof (cases e)
  case (FetchVotes res)
  with assms show ?thesis using fetchVotes_autoReleased [of res st] by simp
next
  case (HandleVote c apiVote votesRes)
  show ?thesis
  proof (cases "selectedProof st")
    case None
    with HandleVote assms show ?thesis by (simp add: handleVote_def)
  next
    case (Some p)
    show ?thesis
    proof (cases "apiVote \<lparr>voteChoice = c, voteProofHash = proof_hash p\<rparr>")
      case True
      with Some HandleVote assms show ?thesis
        using fetchVotes_autoReleased [of votesRes "st\<lparr>myVote := Some c\<rparr>"]
        by (simp add: handleVote_def)
    next
      case False
      with Some HandleVote assms show ?thesis by (simp add: handleVote_def)
    qed
  qed
next
  case (HandleFile u h r p)
  with assms show ?thesis using status_handleFile [of u h r p st] by auto
next
  case (HandleOpenDispute b)
  with assms show ?thesis by (auto simp: handleOpenDispute_def split: if_splits)
qed (use assms in \<open>simp_all add: status_fetchProofs countdownTick_def resetProgress_def\<close>)

theorem autoRelease_needs_two_equal_votes_witness:
  "status (step (FetchVotes (Ok [\<lparr>userId = ''x'', choice = Challenger, timestamp = ''t1''\<rparr>,
                                 \<lparr>userId = ''y'', choice = Challenger, timestamp = ''t2''\<rparr>]))
             initialState) = Some AutoReleased
   \<and> status initialState \<noteq> Some AutoReleased
   \<and> (\<exists>k1 v1 k2 v2.
        votes (step (FetchVotes (Ok [\<lparr>userId = ''x'', choice = Challenger, timestamp = ''t1''\<rparr>,
                                     \<lparr>userId = ''y'', choice = Challenger, timestamp = ''t2''\<rparr>]))
                 initialState) = [(k1, v1), (k2, v2)] \<and> k1 \<noteq> k2 \<and> choice v1 = choice v2)"
proof -
  let ?e = "FetchVotes (Ok [\<lparr>userId = ''x'', choice = Challenger, timestamp = ''t1''\<rparr>,
                            \<lparr>userId = ''y'', choice = Challenger, timestamp = ''t2''\<rparr>])"
  have a: "status (step ?e initialState) = Some AutoReleased"
    by (simp add: fetch_two_equal)
  have b: "status initialState \<noteq> Some AutoReleased"
    by (simp add: initialState_def)
  from autoRelease_needs_two_equal_votes [OF a b] a b show ?thesis by blast
qed

subsection \<open>Divergence\<close>



subsection \<open>The two agreement checks\<close>

text \<open>
  Claim C10. On every vote map the test in \<open>fetchVotes\<close> and the derived flag
  \<open>votesMatch\<close> agree; in particular the flag computed from the votes that
  \<open>fetchVotes\<close> stores is the test it made on them.
\<close>

theorem vote_agreement_checks_equivalent:
  "autoReleaseCheck vs = votesMatch vs
   \<and> votesMatch (votes (fetchVotes (Ok data) st)) = autoReleaseCheck (voteMap_of data)"
  by (auto simp: votes_fetchVotes autoReleaseCheck_pair votesMatch_pair)

theorem vote_agreement_checks_equivalent_witness:
  "autoReleaseCheck
     [(''x'', \<lparr>userId = ''x'', choice = Challenger, timestamp = ''t1''\<rparr>),
      (''y'', \<lparr>userId = ''y'', choice = Challenger, timestamp = ''t2''\<rparr>)]
   \<and> votesMatch
     [(''x'', \<lparr>userId = ''x'', choice = Challenger, timestamp = ''t1''\<rparr>),
      (''y'', \<lparr>userId = ''y'', choice = Challenger, timestamp = ''t2''\<rparr>)]"
proof -
  have "autoReleaseCheck
     [(''x'', \<lparr>userId = ''x'', choice = Challenger, timestamp = ''t1''\<rparr>),
      (''y'', \<lparr>userId = ''y'', choice = Challenger, timestamp = ''t2''\<rparr>)]"
    by (simp add: autoReleaseCheck_def objectKeys_def objectValues_def)
  with vote_agreement_checks_equivalent
    [of "[(''x'', \<lparr>userId = ''x'', choice = Challenger, timestamp = ''t1''\<rparr>),
          (''y'', \<lparr>userId = ''y'', choice = Challenger, timestamp = ''t2''\<rparr>)]"]
  show ?thesis by simp
qed

subsection \<open>The countdown\<close>

lemma formatCountdown_Expired:
  "formatCountdown t = ''Expired'' \<longleftrightarrow> (case t of None \<Rightarrow> True | Some ms \<Rightarrow> ms \<le> 0)"
proof (cases t)
  case None
  then show ?thesis by (simp add: formatCountdown_def)
next
  case (Some ms)
  show ?thesis
  proof (cases "ms \<le> 0")
    case True
    with Some show ?thesis by (simp add: formatCountdown_def)
  next
    case False
    obtain body where "formatCountdown (Some ms) = body @ ''s''"
      using False by (simp add: formatCountdown_def Let_def)
    then have "last (formatCountdown (Some ms)) = CHR ''s''" by simp
    moreover have "last ''Expired'' = CHR ''d''" by simp
    ultimately have "formatCountdown (Some ms) \<noteq> ''Expired''" by auto
    with Some False show ?thesis by simp
  qed
qed

text \<open>
  Claim C7. A tick stores \<open>max 0 (due - now)\<close> as the remaining time, which is never
  negative, and the clock then reads \<open>Expired\<close> exactly when that remaining time is 0.
\<close>

theorem countdown_remaining_and_expiry:
  "countdownTime (fst (countdownTick now due st)) = Some (max 0 (due - now))
   \<and> 0 \<le> max 0 (due - now)
   \<and> (clockText (fst (countdownTick now due st)) = ''Expired'') = (max 0 (due - now) = 0)"
  by (auto simp: countdownTick_def remaining_def clockText_def formatCountdown_Expired)

theorem countdown_remaining_and_expiry_witness:
  "countdownTime (fst (countdownTick 1000 4000 initialState)) = Some 3000
   \<and> clockText (fst (countdownTick 1000 4000 initialState)) \<noteq> ''Expired''
   \<and> countdownTime (fst (countdownTick 5000 4000 initialState)) = Some 0
   \<and> clockText (fst (countdownTick 5000 4000 initialState)) = ''Expired''"
  using countdown_remaining_and_expiry [of 1000 4000 initialState]
    countdown_remaining_and_expiry [of 5000 4000 initialState]
  by simp

text \<open>
  Claim C6, as the panel has it. When the deadline has elapsed while fewer than two
  votes are recorded, the tick clears the timer and the clock reads \<open>Expired\<close>;
  \<open>status\<close> and the votes stay as they were, no vote result is reported and no
  \<open>Open Dispute\<close> button is offered.
\<close>

theorem expiry_only_stops_the_clock:
  assumes "remaining now due = 0" and "length (votes st) < 2"
  shows "snd (countdownTick now due st)
         \<and> clockText (fst (countdownTick now due st)) = ''Expired''
         \<and> status (fst (countdownTick now due st)) = status st
         \<and> votes (fst (countdownTick now due st)) = votes st
         \<and> voteResultText (votes (fst (countdownTick now due st))) = None
         \<and> \<not> openDisputeButtonVisible (fst (countdownTick now due st))"
  using assms not_bothVoted [of "votes st"]
  by (simp add: countdownTick_def clockText_def formatCountdown_def voteResultText_def
      openDisputeButtonVisible_def disputeMenuVisible_def)

theorem expiry_only_stops_the_clock_witness:
  "remaining 2000 1000 = 0 \<and> length (votes initialState) < 2
   \<and> snd (countdownTick 2000 1000 initialState)
   \<and> clockText (fst (countdownTick 2000 1000 initialState)) = ''Expired''
   \<and> status (fst (countdownTick 2000 1000 initialState)) = None"
proof -
  have a: "remaining 2000 1000 = 0" by (simp add: remaining_def)
  have b: "length (votes initialState) < 2" by (simp add: initialState_def)
  from expiry_only_stops_the_clock [OF a b] a b show ?thesis
    by (simp add: initialState_def)
qed

text \<open>
  Claim C6 as stated fails: after a tick past the deadline with no vote recorded,
  \<open>status\<close> is still \<open>null\<close> and nothing on the panel reports a dispute.
\<close>

theorem expiry_opens_no_dispute_counterexample:
  "remaining 2000 1000 = 0
   \<and> length (votes initialState) < 2
   \<and> status (step (CountdownTick 2000 1000) initialState) = None
   \<and> headerLabel (step (CountdownTick 2000 1000) initialState) = None
   \<and> voteResultText (votes (step (CountdownTick 2000 1000) initialState)) = None
   \<and> \<not> disputeMenuVisible (votes (step (CountdownTick 2000 1000) initialState))"
  by (simp add: remaining_def initialState_def countdownTick_def headerLabel_def
      voteResultText_def disputeMenuVisible_def bothVoted_def objectKeys_def)

subsection \<open>Opening a dispute\<close>

text \<open>
  Claim C8, as the panel has it. The \<open>Open Dispute\<close> button can be clicked exactly
  when two votes are recorded, their choices differ, the dispute menu has been opened
  and \<open>status\<close> is not yet \<open>disputed\<close>; the menu can be opened only on such votes.
  When the request succeeds \<open>status\<close> becomes \<open>disputed\<close> at once; when it fails
  nothing changes.
\<close>

theorem dispute_offered_only_on_mismatch:
  "clickable st (HandleOpenDispute apiDispute) =
     ((\<exists>k1 v1 k2 v2. votes st = [(k1, v1), (k2, v2)] \<and> choice v1 \<noteq> choice v2)
      \<and> showDisputeMenu st \<and> status st \<noteq> Some Disputed)
   \<and> clickable st ShowDisputeMenu =
     ((\<exists>k1 v1 k2 v2. votes st = [(k1, v1), (k2, v2)] \<and> choice v1 \<noteq> choice v2)
      \<and> \<not> showDisputeMenu st)
   \<and> status (step (HandleOpenDispute True) st) = Some Disputed
   \<and> step (HandleOpenDispute False) st = st"
  by (simp add: openDisputeButtonVisible_def openDisputeDisabled_def disputeMenuVisible_pair
      handleOpenDispute_def)

theorem dispute_offered_only_on_mismatch_witness:
  "clickable (step ShowDisputeMenu
       (step (FetchVotes (Ok [\<lparr>userId = ''x'', choice = Challenger, timestamp = ''t1''\<rparr>,
                              \<lparr>userId = ''y'', choice = Challenged, timestamp = ''t2''\<rparr>]))
          initialState)) (HandleOpenDispute True)
   \<and> status (step (HandleOpenDispute True) (step ShowDisputeMenu
       (step (FetchVotes (Ok [\<lparr>userId = ''x'', choice = Challenger, timestamp = ''t1''\<rparr>,
                              \<lparr>userId = ''y'', choice = Challenged, timestamp = ''t2''\<rparr>]))
          initialState))) = Some Disputed"
proof -
  let ?s = "step ShowDisputeMenu
       (step (FetchVotes (Ok [\<lparr>userId = ''x'', choice = Challenger, timestamp = ''t1''\<rparr>,
                              \<lparr>userId = ''y'', choice = Challenged, timestamp = ''t2''\<rparr>]))
          initialState)"
  have "votes ?s = [(''x'', \<lparr>userId = ''x'', choice = Challenger, timestamp = ''t1''\<rparr>),
                    (''y'', \<lparr>userId = ''y'', choice = Challenged, timestamp = ''t2''\<rparr>)]"
    and "showDisputeMenu ?s" and "status ?s \<noteq> Some Disputed"
    unfolding step.simps fetch_two_differing by (simp_all add: initialState_def)
  with dispute_offered_only_on_mismatch [of ?s True] show ?thesis by simp
qed

text \<open>
  Claim C8 as stated fails: with one vote recorded and no decision yet, the panel
  offers neither the dispute menu nor the \<open>Open Dispute\<close> button.
\<close>

theorem dispute_before_two_votes_counterexample:
  "status (step (FetchVotes (Ok [\<lparr>userId = ''x'', choice = Challenger, timestamp = ''t1''\<rparr>]))
             initialState) = None
   \<and> length (votes (step (FetchVotes (Ok [\<lparr>userId = ''x'', choice = Challenger, timestamp = ''t1''\<rparr>]))
                      initialState)) = 1
   \<and> \<not> clickable (step (FetchVotes (Ok [\<lparr>userId = ''x'', choice = Challenger, timestamp = ''t1''\<rparr>]))
                      initialState) (HandleOpenDispute True)
   \<and> \<not> clickable (step (FetchVotes (Ok [\<lparr>userId = ''x'', choice = Challenger, timestamp = ''t1''\<rparr>]))
                      initialState) ShowDisputeMenu"
  by (simp add: fetchVotes_def voteMap_of_def autoReleaseCheck_def objectKeys_def
      initialState_def openDisputeButtonVisible_def disputeMenuVisible_def bothVoted_def)

subsection \<open>After a decision\<close>




subsection \<open>The hash of an uploaded proof\<close>

lemma hexDigit_hex: "d < 16 \<Longrightarrow> hexDigit d \<in> set hexChars"
  unfolding hexDigit_def by (rule nth_mem) (simp add: hexChars_def)

lemma toString16_digit: "n < 16 \<Longrightarrow> toString16 n = [hexDigit n]"
  by (simp add: toString16.simps)

lemma toString16_byte:
  assumes "n < 256"
  shows "padStart 2 (CHR ''0'') (toString16 n) = [hexDigit (n div 16), hexDigit (n mod 16)]"
proof (cases "n < 16")
  case True
  then have "hexDigit (n div 16) = CHR ''0''" by (simp add: hexDigit_def hexChars_def)
  with True show ?thesis by (simp add: toString16_digit padStart_def)
next
  case False
  from assms have "n div 16 < 16" by simp
  then have "toString16 (n div 16) = [hexDigit (n div 16)]" by (rule toString16_digit)
  with False have "toString16 n = [hexDigit (n div 16), hexDigit (n mod 16)]"
    by (subst toString16.simps) simp
  then show ?thesis by (simp add: padStart_def)
qed

lemma unat_byte: "unat (b :: 8 word) < 256"
  using unsigned_less [of b, where ?'a = nat] by simp

lemma hashHex_bytes:
  "hashHex hashArray =
     concat (map (\<lambda>b. [hexDigit (unat b div 16), hexDigit (unat b mod 16)]) hashArray)"
  by (simp add: hashHex_def toString16_byte unat_byte)

lemma length_hashHex: "length (hashHex hashArray) = 2 * length hashArray"
  unfolding hashHex_bytes by (induction hashArray) simp_all

lemma set_hashHex: "set (hashHex hashArray) \<subseteq> set hexChars"
proof -
  have "hexDigit (unat b div 16) \<in> set hexChars
        \<and> hexDigit (unat b mod 16) \<in> set hexChars" for b :: "8 word"
  proof -
    have "unat b div 16 < 16" using unat_byte [of b] by simp
    moreover have "unat b mod 16 < 16" by simp
    ultimately show ?thesis using hexDigit_hex by blast
  qed
  then show ?thesis unfolding hashHex_bytes by auto
qed

text \<open>
  Claim C9. For a digest of 32 bytes, as SHA-256 gives, the \<open>proofHash\<close> of the
  registration request has 64 characters, all of them among \<open>0123456789abcdef\<close>, and
  is the digest written byte by byte as two hexadecimal digits, the high one first.
\<close>

theorem proofHash_is_64_lowercase_hex:
  assumes "length hashArray = 32"
  shows "length (proofHash (registration imageUrl hashArray)) = 64
         \<and> (\<forall>c \<in> set (proofHash (registration imageUrl hashArray)). c \<in> set hexChars)
         \<and> proofHash (registration imageUrl hashArray) =
             concat (map (\<lambda>b. [hexDigit (unat b div 16), hexDigit (unat b mod 16)]) hashArray)"
proof -
  have h: "proofHash (registration imageUrl hashArray) = hashHex hashArray"
    by (simp add: registration_def)
  have "length (hashHex hashArray) = 64" using assms by (simp add: length_hashHex)
  moreover have "\<forall>c \<in> set (hashHex hashArray). c \<in> set hexChars"
    using set_hashHex [of hashArray] by blast
  ultimately show ?thesis unfolding h using hashHex_bytes [of hashArray] by blast
qed

theorem proofHash_is_64_lowercase_hex_witness:
  "length (replicate 32 (0x0a :: 8 word)) = 32
   \<and> length (proofHash (registration ''u'' (replicate 32 (0x0a :: 8 word)))) = 64
   \<and> proofHash (registration ''u'' (replicate 32 (0x0a :: 8 word))) = concat (replicate 32 ''0a'')"
proof -
  have a: "length (replicate 32 (0x0a :: 8 word)) = 32" by simp
  have d: "hexDigit 0 = CHR ''0''" "hexDigit 10 = CHR ''a''"
    by (simp_all add: hexDigit_def hexChars_def)
  from proofHash_is_64_lowercase_hex [OF a, of "''u''"]
  have "length (proofHash (registration ''u'' (replicate 32 (0x0a :: 8 word)))) = 64"
    and "proofHash (registration ''u'' (replicate 32 (0x0a :: 8 word))) =
      concat (map (\<lambda>b. [hexDigit (unat b div 16), hexDigit (unat b mod 16)])
        (replicate 32 (0x0a :: 8 word)))"
    by blast+
  then show ?thesis by (simp add: map_replicate d)
qed

subsection \<open>The vote ledger\<close>

lemma castVote_rejects_unchanged:
  "fst (castVote core cid voter c h now) = Inl err \<Longrightarrow> snd (castVote core cid voter c h now) = core"
  by (auto simp: castVote_def Let_def split: option.splits if_splits)












end
